theory Spec2Isabelle
  imports Main
begin

section \<open>Control-flow-graph builder of \<open>cfg_visualization.py\<close>\<close>

text \<open>
  The development embeds the class \<open>CFGBuilder\<close> (lines 7-87 of
  \<open>src/cfg_visualization.py\<close>) and the metric computation of the page script
  (lines 117-120). The builder stores its graph in a \<open>networkx.DiGraph\<close>; the two
  operations of that library the builder calls, \<open>add_node\<close> and \<open>add_edge\<close>, are
  modelled with the behaviour the library documents for a simple directed graph:
  at most one edge per ordered pair of nodes, an edge added again only has its
  attributes updated, and an endpoint that is not a node yet is added silently.
\<close>

subsection \<open>Python dictionaries\<close>

text \<open>
  A Python \<open>dict\<close> keeps its keys in insertion order; assigning to a key that is
  present replaces the value in place. \<open>dict_set\<close> is \<open>d[k] = v\<close>, \<open>dict_update\<close>
  is \<open>d.update(other)\<close>, \<open>dict_get\<close> is \<open>d.get(k, default)\<close>.
\<close>

type_synonym ('k, 'v) dict = "('k \<times> 'v) list"

fun dict_set :: "'k \<Rightarrow> 'v \<Rightarrow> ('k, 'v) dict \<Rightarrow> ('k, 'v) dict" where
  "dict_set k v [] = [(k, v)]"
| "dict_set k v ((k', v') # d) = (if k' = k then (k, v) # d else (k', v') # dict_set k v d)"

definition dict_update :: "('k, 'v) dict \<Rightarrow> ('k, 'v) dict \<Rightarrow> ('k, 'v) dict" where
  "dict_update d other = fold (\<lambda>(k, v). dict_set k v) other d"

definition dict_get :: "('k, 'v) dict \<Rightarrow> 'k \<Rightarrow> 'v \<Rightarrow> 'v" where
  "dict_get d k dflt = (case map_of d k of None \<Rightarrow> dflt | Some v \<Rightarrow> v)"

definition keys :: "('k, 'v) dict \<Rightarrow> 'k list" where
  "keys d = map fst d"

subsection \<open>The directed graph (\<open>networkx.DiGraph\<close>)\<close>

type_synonym node_id = string
type_synonym attrs = "(string, string) dict"

text \<open>
  \<open>node_dict\<close> is the graph's node table (node id to attribute dictionary).
  \<open>edge_dict\<close> is its adjacency table: the library nests it (source, then target);
  it is kept here as one dictionary keyed by the ordered pair, which holds the same
  edges with the same attributes.
\<close>

record digraph =
  node_dict :: "(node_id, attrs) dict"
  edge_dict :: "(node_id \<times> node_id, attrs) dict"

definition empty_graph :: digraph where
  "empty_graph = \<lparr>node_dict = [], edge_dict = []\<rparr>"

definition has_node :: "digraph \<Rightarrow> node_id \<Rightarrow> bool" where
  "has_node g n = (map_of (node_dict g) n \<noteq> None)"

definition has_edge :: "digraph \<Rightarrow> node_id \<Rightarrow> node_id \<Rightarrow> bool" where
  "has_edge g u v = (map_of (edge_dict g) (u, v) \<noteq> None)"

text \<open>\<open>G.add_node(n, **attr)\<close>: a new node gets a fresh attribute dictionary; then
  the attributes are merged in.\<close>

definition nx_add_node :: "node_id \<Rightarrow> attrs \<Rightarrow> digraph \<Rightarrow> digraph" where
  "nx_add_node n attr g =
     g\<lparr>node_dict := dict_set n (dict_update (dict_get (node_dict g) n []) attr) (node_dict g)\<rparr>"

text \<open>\<open>G.add_edge(u, v, **attr)\<close>: endpoints that are not nodes are added with no
  attributes; the edge's attribute dictionary (empty if the edge is new) is updated
  and stored under \<open>(u, v)\<close>.\<close>

definition ensure_node :: "node_id \<Rightarrow> digraph \<Rightarrow> digraph" where
  "ensure_node n g = (if has_node g n then g else g\<lparr>node_dict := node_dict g @ [(n, [])]\<rparr>)"

definition nx_add_edge :: "node_id \<Rightarrow> node_id \<Rightarrow> attrs \<Rightarrow> digraph \<Rightarrow> digraph" where
  "nx_add_edge u v attr g =
     (let g1 = ensure_node u g;
          g2 = ensure_node v g1;
          datadict = dict_get (edge_dict g2) (u, v) []
      in g2\<lparr>edge_dict := dict_set (u, v) (dict_update datadict attr) (edge_dict g2)\<rparr>)"

definition number_of_nodes :: "digraph \<Rightarrow> nat" where
  "number_of_nodes g = length (node_dict g)"

definition number_of_edges :: "digraph \<Rightarrow> nat" where
  "number_of_edges g = length (edge_dict g)"

definition out_degree :: "digraph \<Rightarrow> node_id \<Rightarrow> nat" where
  "out_degree g n = length (filter (\<lambda>e. fst e = n) (keys (edge_dict g)))"

definition in_degree :: "digraph \<Rightarrow> node_id \<Rightarrow> nat" where
  "in_degree g n = length (filter (\<lambda>e. snd e = n) (keys (edge_dict g)))"

text \<open>The label of an edge as the renderer reads it: \<open>data.get('label', '')\<close>.\<close>

definition edge_label :: "digraph \<Rightarrow> node_id \<Rightarrow> node_id \<Rightarrow> string option" where
  "edge_label g u v =
     (case map_of (edge_dict g) (u, v) of None \<Rightarrow> None | Some d \<Rightarrow> Some (dict_get d ''label'' ''''))"

subsection \<open>Metrics (lines 117-120)\<close>

definition predicates :: "digraph \<Rightarrow> nat" where
  "predicates g = length (filter (\<lambda>n. out_degree g n > 1) (keys (node_dict g)))"

definition cyclomatic_complexity :: "digraph \<Rightarrow> int" where
  "cyclomatic_complexity g = int (number_of_edges g) - int (number_of_nodes g) + 2"

subsection \<open>Syntax trees\<close>

text \<open>
  The tree comes from Python's \<open>ast.parse\<close>. The visitor dispatches on the class
  of a tree node: \<open>Assign\<close>, \<open>Expr\<close> (an expression statement), \<open>If\<close> and \<open>While\<close>
  have a method; every other class (other statements, and all expression and
  helper nodes) goes to \<open>NodeVisitor.generic_visit\<close>, which visits the node's child
  nodes in field order. The text \<open>ast.unparse\<close> gives for a node or for a test
  expression is carried in the tree. \<open>Other txt children\<close> stands for a node of any
  other class, with all its child nodes in the order \<open>generic_visit\<close> takes.
  \<open>If\<close> and \<open>While\<close> carry \<open>body\<close> and \<open>orelse\<close>.
\<close>

datatype stmt =
    Assign string
  | Expr string
  | If string "stmt list" "stmt list"
  | While string "stmt list" "stmt list"
  | Other string "stmt list"

subsection \<open>The builder\<close>

record builder =
  graph :: digraph
  counter :: nat
  last_nodes :: "node_id list"

text \<open>\<open>CFGBuilder.__init__\<close>\<close>

definition init :: builder where
  "init = \<lparr>graph = empty_graph, counter = 0, last_nodes = []\<rparr>"

text \<open>Decimal rendering of a natural number, as the f-string \<open>f"node_{self.counter}"\<close> does.\<close>

definition digit :: "nat \<Rightarrow> char" where
  "digit d = ''0123456789'' ! d"

fun str_nat :: "nat \<Rightarrow> string" where
  "str_nat n = (if n < 10 then [digit n] else str_nat (n div 10) @ [digit (n mod 10)])"

declare str_nat.simps [simp del]

definition node_name :: "nat \<Rightarrow> node_id" where
  "node_name c = ''node_'' @ str_nat c"

definition new_node :: "string \<Rightarrow> string \<Rightarrow> string \<Rightarrow> builder \<Rightarrow> node_id \<times> builder" where
  "new_node label shape color b =
     (let c = counter b + 1;
          node_id = node_name c
      in (node_id,
          b\<lparr>counter := c,
            graph := nx_add_node node_id
              [(''label'', label), (''shape'', shape), (''fillcolor'', color), (''style'', ''filled'')]
              (graph b)\<rparr>))"

definition add_edge :: "node_id \<Rightarrow> node_id \<Rightarrow> string \<Rightarrow> builder \<Rightarrow> builder" where
  "add_edge source target label b =
     b\<lparr>graph := nx_add_edge source target [(''label'', label)] (graph b)\<rparr>"

text \<open>
  \<open>visit\<close> is \<open>NodeVisitor.visit\<close> with the four \<open>visit_*\<close> methods and
  \<open>generic_visit\<close>; \<open>visit_all\<close> is the loop \<open>for child in ...: self.visit(child)\<close>.
  The defaults \<open>shape="rect"\<close>, \<open>color="#ffffff"\<close> and \<open>label=""\<close> are written out.
\<close>

fun visit :: "stmt \<Rightarrow> builder \<Rightarrow> builder"
  and visit_all :: "stmt list \<Rightarrow> builder \<Rightarrow> builder" where
  "visit (Assign label) b =
     (let (curr, b1) = new_node label ''rect'' ''#ffffff'' b;
          b2 = fold (\<lambda>prev. add_edge prev curr '''') (last_nodes b1) b1
      in b2\<lparr>last_nodes := [curr]\<rparr>)"
| "visit (Expr label) b =
     (let (curr, b1) = new_node label ''rect'' ''#ffffff'' b;
          b2 = fold (\<lambda>prev. add_edge prev curr '''') (last_nodes b1) b1
      in b2\<lparr>last_nodes := [curr]\<rparr>)"
| "visit (If test body orelse) b =
     (let (cond, b1) = new_node (''if '' @ test @ '':'') ''diamond'' ''#AED6F1'' b;
          b2 = fold (\<lambda>prev. add_edge prev cond '''') (last_nodes b1) b1;
          b3 = visit_all body (b2\<lparr>last_nodes := [cond]\<rparr>);
          if_exits = last_nodes b3;
          b4 = b3\<lparr>last_nodes := [cond]\<rparr>;
          b5 = (if orelse \<noteq> [] then visit_all orelse b4 else b4);
          else_exits = (if orelse \<noteq> [] then last_nodes b5 else [cond])
      in b5\<lparr>last_nodes := if_exits @ else_exits\<rparr>)"
| "visit (While test body orelse) b =
     (let (cond, b1) = new_node (''while '' @ test @ '':'') ''diamond'' ''#F9E79F'' b;
          b2 = fold (\<lambda>prev. add_edge prev cond '''') (last_nodes b1) b1;
          b3 = visit_all body (b2\<lparr>last_nodes := [cond]\<rparr>);
          b4 = fold (\<lambda>node_exit. add_edge node_exit cond ''Loop'') (last_nodes b3) b3
      in b4\<lparr>last_nodes := [cond]\<rparr>)"
| "visit (Other txt children) b = visit_all children b"
| "visit_all [] b = b"
| "visit_all (child # rest) b = visit_all rest (visit child b)"

subsection \<open>\<open>build\<close>\<close>

text \<open>
  \<open>ast.parse(code)\<close> is the standard library's parser: it returns a module whose
  \<open>body\<close> is a statement list, raises \<open>SyntaxError\<close>, or raises another exception
  (named by its class). \<open>build\<close> takes the parser as a parameter.
  A call of \<open>build\<close> either returns its pair or lets an exception escape.
\<close>

datatype parse_result =
    Module "stmt list"
  | SyntaxError string
  | OtherException string

datatype build_result =
    Returned "digraph option" "string option"
  | Escaped string

definition build_tree :: "parse_result \<Rightarrow> builder \<Rightarrow> build_result \<times> builder" where
  "build_tree tree b =
     (case tree of
        SyntaxError e \<Rightarrow> (Returned None (Some (''Syntax Error: '' @ e)), b)
      | OtherException x \<Rightarrow> (Escaped x, b)
      | Module body \<Rightarrow>
          (let (start, b1) = new_node ''START'' ''ellipse'' ''#DAF7A6'' b;
               b2 = b1\<lparr>last_nodes := [start]\<rparr>;
               b3 = visit_all body b2;
               (end, b4) = new_node ''STOP'' ''ellipse'' ''#FFC300'' b3;
               b5 = fold (\<lambda>node. add_edge node end '''') (last_nodes b4) b4
           in (Returned (Some (graph b5)) None, b5)))"

definition build :: "(string \<Rightarrow> parse_result) \<Rightarrow> string \<Rightarrow> builder \<Rightarrow> build_result \<times> builder" where
  "build parse code b = build_tree (parse code) b"

subsection \<open>Notions used to state the properties\<close>

text \<open>
  \<open>link\<close> is the loop \<open>for prev in nodes: self.add_edge(prev, target, label)\<close>.
  \<open>attach\<close> is the common opening of the four visit methods: a node is created,
  every frontier node gets an edge into it, and it becomes the frontier
  (lines 41-44, 48-51, 55-60 and 76-80).
\<close>

definition link :: "node_id list \<Rightarrow> node_id \<Rightarrow> string \<Rightarrow> builder \<Rightarrow> builder" where
  "link srcs target label b = fold (\<lambda>src. add_edge src target label) srcs b"

definition attach :: "string \<Rightarrow> string \<Rightarrow> string \<Rightarrow> builder \<Rightarrow> node_id \<times> builder" where
  "attach label shape color b =
     (let (n, b1) = new_node label shape color b;
          b2 = link (last_nodes b1) n '''' b1
      in (n, b2\<lparr>last_nodes := [n]\<rparr>))"

text \<open>The labels of the nodes, in node order, as the renderer reads them.\<close>

definition labels :: "digraph \<Rightarrow> string list" where
  "labels g = map (\<lambda>(n, a). dict_get a ''label'' '''') (node_dict g)"

text \<open>
  The sentinels are the nodes \<open>build\<close> creates with shape \<open>ellipse\<close> and label
  \<open>START\<close> or \<open>STOP\<close>; statement nodes are drawn as \<open>rect\<close>, predicates as \<open>diamond\<close>.
\<close>

definition is_sentinel :: "string \<Rightarrow> attrs \<Rightarrow> bool" where
  "is_sentinel role a =
     (dict_get a ''label'' '''' = role \<and> dict_get a ''shape'' '''' = ''ellipse'')"

definition sentinels :: "string \<Rightarrow> digraph \<Rightarrow> node_id list" where
  "sentinels role g = map fst (filter (\<lambda>(n, a). is_sentinel role a) (node_dict g))"

text \<open>The sources of the edges labelled \<open>Loop\<close> that enter a node, in edge order.\<close>

definition loop_sources :: "digraph \<Rightarrow> node_id \<Rightarrow> node_id list" where
  "loop_sources g target =
     map (\<lambda>(e, a). fst e)
       (filter (\<lambda>(e, a). snd e = target \<and> dict_get a ''label'' '''' = ''Loop'') (edge_dict g))"

text \<open>All edges labelled \<open>Loop\<close>.\<close>

definition loop_edges :: "digraph \<Rightarrow> (node_id \<times> node_id) list" where
  "loop_edges g = keys (filter (\<lambda>(e, a). dict_get a ''label'' '''' = ''Loop'') (edge_dict g))"

text \<open>A tree none of whose nodes has a visit method: \<open>pass\<close>, \<open>break\<close>,
  \<open>return x\<close>, an expression, ...\<close>

fun unhandled_only :: "stmt \<Rightarrow> bool" where
  "unhandled_only (Other txt children) = list_all unhandled_only children"
| "unhandled_only (Assign label) = False"
| "unhandled_only (Expr label) = False"
| "unhandled_only (If test body orelse) = False"
| "unhandled_only (While test body orelse) = False"

text \<open>
  The states the builder goes through keep this invariant: node ids are
  \<open>node_1 .. node_counter\<close>, the frontier and the endpoints of all edges are nodes,
  and no ordered pair has two entries in the edge table.
\<close>

definition wf :: "builder \<Rightarrow> bool" where
  "wf b =
     (distinct (keys (edge_dict (graph b))) \<and>
      list_all (\<lambda>n. n \<in> set (map node_name [1..<Suc (counter b)])) (keys (node_dict (graph b))) \<and>
      list_all (has_node (graph b)) (last_nodes b) \<and>
      list_all (\<lambda>(u, v). has_node (graph b) u \<and> has_node (graph b) v) (keys (edge_dict (graph b))))"

text \<open>\<open>grows b b'\<close>: the node table of \<open>b'\<close> is that of \<open>b\<close> followed by nodes that
  are not drawn as ellipses.\<close>

definition grows :: "builder \<Rightarrow> builder \<Rightarrow> bool" where
  "grows b b' =
     (\<exists>new. node_dict (graph b') = node_dict (graph b) @ new \<and>
            list_all (\<lambda>(n, a). dict_get a ''shape'' '''' \<noteq> ''ellipse'') new)"

text \<open>The builder after lines 28-29 of \<open>build\<close>: START exists and is the frontier.\<close>

definition started :: builder where
  "started =
     (snd (new_node ''START'' ''ellipse'' ''#DAF7A6'' init))
       \<lparr>last_nodes := [fst (new_node ''START'' ''ellipse'' ''#DAF7A6'' init)]\<rparr>"

text \<open>
  \<open>ext b b'\<close> relates a state to a later one: the later state is well formed, the
  counter has not decreased, nodes were only appended, and the edges into the nodes
  \<open>node_1 .. node_(counter b)\<close> are as they were.
\<close>

definition ext :: "builder \<Rightarrow> builder \<Rightarrow> bool" where
  "ext b b' =
     (wf b' \<and> counter b \<le> counter b' \<and> grows b b' \<and>
      (\<forall>u i. i \<le> counter b \<longrightarrow>
         edge_label (graph b') u (node_name i) = edge_label (graph b) u (node_name i)))"

section \<open>Basic facts\<close>

subsection \<open>Node names\<close>

lemma digit_inj: "a < 10 \<Longrightarrow> b < 10 \<Longrightarrow> digit a = digit b \<Longrightarrow> a = b"
proof -
  assume a: "a < 10" and b: "b < 10" and e: "digit a = digit b"
  have A: "a \<in> {0, 1, 2, 3, 4, 5, 6, 7, 8, 9}" using a by auto
  have B: "b \<in> {0, 1, 2, 3, 4, 5, 6, 7, 8, 9}" using b by auto
  show ?thesis using A B e by (auto simp: digit_def)
qed

lemma str_nat_nonempty: "str_nat n \<noteq> []"
  by (subst str_nat.simps) simp

lemma str_nat_inj: "str_nat n = str_nat m \<Longrightarrow> n = m"
proof (induction n arbitrary: m rule: str_nat.induct)
  case (1 n)
  show ?case
  proof (cases "n < 10")
    case True
    then have n: "str_nat n = [digit n]" by (subst str_nat.simps) simp
    show ?thesis
    proof (cases "m < 10")
      case True
      then have "str_nat m = [digit m]" by (subst str_nat.simps) simp
      with n "1.prems" have "digit n = digit m" by simp
      with \<open>n < 10\<close> \<open>m < 10\<close> show ?thesis by (rule digit_inj)
    next
      case False
      then have "str_nat m = str_nat (m div 10) @ [digit (m mod 10)]"
        by (subst str_nat.simps) simp
      with n "1.prems" have "str_nat (m div 10) = []" by simp
      then show ?thesis by (simp add: str_nat_nonempty)
    qed
  next
    case False
    then have n: "str_nat n = str_nat (n div 10) @ [digit (n mod 10)]"
      by (subst str_nat.simps) simp
    show ?thesis
    proof (cases "m < 10")
      case True
      then have "str_nat m = [digit m]" by (subst str_nat.simps) simp
      with n "1.prems" have "str_nat (n div 10) = []" by simp
      then show ?thesis by (simp add: str_nat_nonempty)
    next
      case m: False
      then have "str_nat m = str_nat (m div 10) @ [digit (m mod 10)]"
        by (subst str_nat.simps) simp
      with n "1.prems" have q: "str_nat (n div 10) = str_nat (m div 10)"
        and d: "digit (n mod 10) = digit (m mod 10)" by simp_all
      from "1.IH" [OF False q] have "n div 10 = m div 10" .
      moreover from d have "n mod 10 = m mod 10" by (intro digit_inj) simp_all
      ultimately show ?thesis by (metis div_mult_mod_eq)
    qed
  qed
qed

lemma node_name_inj [simp]: "node_name i = node_name j \<longleftrightarrow> i = j"
  by (auto simp: node_name_def dest: str_nat_inj)

lemma node_name_1: "node_name (Suc 0) = ''node_1''"
  by (simp add: node_name_def str_nat.simps digit_def)

subsection \<open>Dictionaries\<close>

lemma map_of_dict_set: "map_of (dict_set k v d) = (map_of d)(k \<mapsto> v)"
  by (induction k v d rule: dict_set.induct) (auto simp: fun_eq_iff)

lemma keys_dict_set:
  "keys (dict_set k v d) = (if k \<in> set (keys d) then keys d else keys d @ [k])"
  by (induction k v d rule: dict_set.induct) (auto simp: keys_def)

lemma dict_set_fresh: "k \<notin> set (keys d) \<Longrightarrow> dict_set k v d = d @ [(k, v)]"
  by (induction k v d rule: dict_set.induct) (auto simp: keys_def)

lemma length_dict_set_known: "k \<in> set (keys d) \<Longrightarrow> length (dict_set k v d) = length d"
  by (induction k v d rule: dict_set.induct) (auto simp: keys_def)

lemma in_keys_iff: "k \<in> set (keys d) \<longleftrightarrow> map_of d k \<noteq> None"
  by (simp add: keys_def map_of_eq_None_iff)

lemma distinct_keys_dict_set: "distinct (keys d) \<Longrightarrow> distinct (keys (dict_set k v d))"
  by (simp add: keys_dict_set)

lemma label_after_update: "dict_get (dict_update d [(''label'', l)]) ''label'' dflt = l"
  by (simp add: dict_get_def dict_update_def map_of_dict_set)

lemma node_attrs_eval:
  "dict_update [] [(''label'', l), (''shape'', s), (''fillcolor'', c), (''style'', ''filled'')]
     = [(''label'', l), (''shape'', s), (''fillcolor'', c), (''style'', ''filled'')]"
  by (simp add: dict_update_def)

subsection \<open>Graph operations\<close>

lemma has_node_iff: "has_node g n \<longleftrightarrow> n \<in> set (keys (node_dict g))"
  by (simp add: has_node_def in_keys_iff)

lemma has_edge_iff: "has_edge g u v \<longleftrightarrow> (u, v) \<in> set (keys (edge_dict g))"
  by (simp add: has_edge_def in_keys_iff)

lemma has_edge_label: "has_edge g u v \<longleftrightarrow> edge_label g u v \<noteq> None"
  by (simp add: has_edge_def edge_label_def split: option.splits)

lemma edge_dict_ensure [simp]: "edge_dict (ensure_node n g) = edge_dict g"
  by (simp add: ensure_node_def)

lemma ensure_node_known: "has_node g n \<Longrightarrow> ensure_node n g = g"
  by (simp add: ensure_node_def)

lemma has_node_ensure: "has_node (ensure_node n g) m \<longleftrightarrow> m = n \<or> has_node g m"
  by (auto simp: ensure_node_def has_node_iff keys_def)

lemma edge_dict_add_edge:
  "edge_dict (nx_add_edge u v a g) =
     dict_set (u, v) (dict_update (dict_get (edge_dict g) (u, v) []) a) (edge_dict g)"
  by (simp add: nx_add_edge_def Let_def)

lemma node_dict_add_edge:
  "node_dict (nx_add_edge u v a g) = node_dict (ensure_node v (ensure_node u g))"
  by (simp add: nx_add_edge_def Let_def)

lemma node_dict_add_edge_known:
  "has_node g u \<Longrightarrow> has_node g v \<Longrightarrow> node_dict (nx_add_edge u v a g) = node_dict g"
  by (simp add: node_dict_add_edge ensure_node_known)

lemma has_node_add_edge:
  "has_node (nx_add_edge u v a g) n \<longleftrightarrow> n = u \<or> n = v \<or> has_node g n"
  using has_node_ensure [of v "ensure_node u g" n] has_node_ensure [of u g n]
  by (auto simp: has_node_iff node_dict_add_edge)

lemma edge_label_add_edge:
  "edge_label (nx_add_edge u v [(''label'', l)] g) u' v' =
     (if u' = u \<and> v' = v then Some l else edge_label g u' v')"
  by (simp add: edge_label_def edge_dict_add_edge map_of_dict_set label_after_update)

lemma distinct_edges_add_edge:
  "distinct (keys (edge_dict g)) \<Longrightarrow> distinct (keys (edge_dict (nx_add_edge u v a g)))"
  by (simp add: edge_dict_add_edge distinct_keys_dict_set)

lemma edge_dict_add_node [simp]: "edge_dict (nx_add_node n a g) = edge_dict g"
  by (simp add: nx_add_node_def)

lemma node_dict_add_node_fresh:
  "\<not> has_node g n \<Longrightarrow>
   node_dict (nx_add_node n a g) = node_dict g @ [(n, dict_update [] a)]"
  by (simp add: nx_add_node_def has_node_def dict_get_def dict_set_fresh in_keys_iff)

subsection \<open>Builder steps\<close>

lemma counter_add_edge [simp]: "counter (add_edge u v l b) = counter b"
  and last_nodes_add_edge [simp]: "last_nodes (add_edge u v l b) = last_nodes b"
  and graph_add_edge: "graph (add_edge u v l b) = nx_add_edge u v [(''label'', l)] (graph b)"
  by (simp_all add: add_edge_def)

lemma link_Nil [simp]: "link [] t l b = b"
  and link_Cons [simp]: "link (x # xs) t l b = link xs t l (add_edge x t l b)"
  by (simp_all add: link_def)

lemma counter_link [simp]: "counter (link xs t l b) = counter b"
  by (induction xs arbitrary: b) simp_all

lemma last_nodes_link [simp]: "last_nodes (link xs t l b) = last_nodes b"
  by (induction xs arbitrary: b) simp_all

lemma edge_label_link:
  "edge_label (graph (link xs t l b)) u v =
     (if u \<in> set xs \<and> v = t then Some l else edge_label (graph b) u v)"
  by (induction xs arbitrary: b) (auto simp: graph_add_edge edge_label_add_edge)

lemma node_dict_link:
  "\<forall>x\<in>set xs. has_node (graph b) x \<Longrightarrow> has_node (graph b) t \<Longrightarrow>
   node_dict (graph (link xs t l b)) = node_dict (graph b)"
proof (induction xs arbitrary: b)
  case Nil
  then show ?case by simp
next
  case (Cons x xs)
  have n: "node_dict (graph (add_edge x t l b)) = node_dict (graph b)"
    using Cons.prems by (simp add: graph_add_edge node_dict_add_edge_known)
  then have h: "has_node (graph (add_edge x t l b)) = has_node (graph b)"
    by (simp add: has_node_def fun_eq_iff)
  have "node_dict (graph (link xs t l (add_edge x t l b))) = node_dict (graph (add_edge x t l b))"
    using Cons.prems by (intro Cons.IH) (simp_all add: h)
  with n show ?case by simp
qed

lemma distinct_edges_link:
  "distinct (keys (edge_dict (graph b))) \<Longrightarrow> distinct (keys (edge_dict (graph (link xs t l b))))"
  by (induction xs arbitrary: b) (simp_all add: graph_add_edge distinct_edges_add_edge)

lemma fst_new_node [simp]: "fst (new_node l s c b) = node_name (Suc (counter b))"
  and counter_new_node [simp]: "counter (snd (new_node l s c b)) = Suc (counter b)"
  and last_nodes_new_node [simp]: "last_nodes (snd (new_node l s c b)) = last_nodes b"
  and edge_dict_new_node [simp]:
    "edge_dict (graph (snd (new_node l s c b))) = edge_dict (graph b)"
  by (simp_all add: new_node_def Let_def)

lemma node_dict_new_node:
  "\<not> has_node (graph b) (node_name (Suc (counter b))) \<Longrightarrow>
   node_dict (graph (snd (new_node l s c b))) =
     node_dict (graph b) @
       [(node_name (Suc (counter b)),
         [(''label'', l), (''shape'', s), (''fillcolor'', c), (''style'', ''filled'')])]"
  by (simp add: new_node_def Let_def node_dict_add_node_fresh node_attrs_eval)

lemma edge_label_new_node [simp]:
  "edge_label (graph (snd (new_node l s c b))) u v = edge_label (graph b) u v"
  by (simp add: edge_label_def)

section \<open>Evaluation on concrete programs\<close>

lemma node_name_evals:
  "node_name (Suc 0) = ''node_1''"
  "node_name (Suc (Suc 0)) = ''node_2''"
  "node_name (Suc (Suc (Suc 0))) = ''node_3''"
  "node_name (Suc (Suc (Suc (Suc 0)))) = ''node_4''"
  "node_name (Suc (Suc (Suc (Suc (Suc 0))))) = ''node_5''"
  by (simp_all add: node_name_def str_nat.simps digit_def)

lemmas eval_defs = new_node_def add_edge_def nx_add_node_def nx_add_edge_def ensure_node_def
  has_node_def dict_get_def dict_update_def Let_def init_def empty_graph_def node_name_evals

lemma build_empty:
  "snd (build_tree (Module []) init) =
     \<lparr>graph = \<lparr>node_dict =
         [(''node_1'', [(''label'', ''START''), (''shape'', ''ellipse''),
                        (''fillcolor'', ''#DAF7A6''), (''style'', ''filled'')]),
          (''node_2'', [(''label'', ''STOP''), (''shape'', ''ellipse''),
                        (''fillcolor'', ''#FFC300''), (''style'', ''filled'')])],
        edge_dict = [((''node_1'', ''node_2''), [(''label'', '''')])]\<rparr>,
      counter = 2, last_nodes = [''node_1'']\<rparr>"
  by (simp add: build_tree_def eval_defs)

section \<open>Claims about \<open>add_edge\<close>\<close>

text \<open>
  Claim C2 (as stated: two calls of \<open>add_edge\<close> with the same ordered pair give two
  edges, both counted). The graph is a simple directed graph: the empty program gives
  the one edge from START to STOP with the empty label; adding \<open>node_1 -> node_2\<close>
  again with label \<open>Loop\<close> leaves one edge, now labelled \<open>Loop\<close>.
\<close>

theorem C2_counterexample:
  "number_of_edges (graph (snd (build_tree (Module []) init))) = 1 \<and>
   edge_label (graph (snd (build_tree (Module []) init))) ''node_1'' ''node_2'' = Some '''' \<and>
   number_of_edges
     (graph (add_edge ''node_1'' ''node_2'' ''Loop'' (snd (build_tree (Module []) init)))) = 1 \<and>
   edge_label
     (graph (add_edge ''node_1'' ''node_2'' ''Loop'' (snd (build_tree (Module []) init))))
     ''node_1'' ''node_2'' = Some ''Loop''"
  by (simp add: build_empty number_of_edges_def edge_label_def add_edge_def nx_add_edge_def
      ensure_node_def has_node_def dict_get_def dict_update_def Let_def)

text \<open>
  Claim C2, amended: a second \<open>add_edge\<close> with the same ordered pair adds no edge.
  The edge table keeps the same pairs in the same order, so the edge count is that
  after the first call; the nodes are untouched; the pair carries the label of the
  second call.
\<close>

theorem add_edge_same_pair:
  "keys (edge_dict (graph (add_edge u v l2 (add_edge u v l1 b)))) =
     keys (edge_dict (graph (add_edge u v l1 b))) \<and>
   number_of_edges (graph (add_edge u v l2 (add_edge u v l1 b))) =
     number_of_edges (graph (add_edge u v l1 b)) \<and>
   node_dict (graph (add_edge u v l2 (add_edge u v l1 b))) =
     node_dict (graph (add_edge u v l1 b)) \<and>
   edge_label (graph (add_edge u v l2 (add_edge u v l1 b))) u v = Some l2"
proof -
  let ?g1 = "graph (add_edge u v l1 b)"
  let ?g2 = "nx_add_edge u v [(''label'', l2)] ?g1"
  have "edge_label ?g1 u v = Some l1"
    by (simp add: graph_add_edge edge_label_add_edge)
  then have k: "(u, v) \<in> set (keys (edge_dict ?g1))"
    using has_edge_label [of ?g1 u v] by (simp add: has_edge_iff)
  then have ks: "keys (edge_dict ?g2) = keys (edge_dict ?g1)"
    by (simp add: edge_dict_add_edge keys_dict_set)
  then have "length (keys (edge_dict ?g2)) = length (keys (edge_dict ?g1))"
    by simp
  then have len: "length (edge_dict ?g2) = length (edge_dict ?g1)"
    by (simp add: keys_def)
  have "has_node ?g1 u" and "has_node ?g1 v"
    by (simp_all add: graph_add_edge has_node_add_edge)
  then have "node_dict ?g2 = node_dict ?g1"
    by (rule node_dict_add_edge_known)
  with ks len show ?thesis
    by (simp add: number_of_edges_def graph_add_edge edge_label_add_edge)
qed

text \<open>
  Claim C7 (as stated: \<open>add_edge\<close> fails when an endpoint is unknown). On the fresh
  builder, whose graph has no node, the call returns normally, and both endpoints
  have become nodes without attributes.
\<close>

theorem C7_counterexample:
  "add_edge ''ghost'' ''node_7'' '''' init =
     \<lparr>graph = \<lparr>node_dict = [(''ghost'', []), (''node_7'', [])],
               edge_dict = [((''ghost'', ''node_7''), [(''label'', '''')])]\<rparr>,
      counter = 0, last_nodes = []\<rparr>"
  by (simp add: eval_defs)

lemma map_of_ensure_node:
  "map_of (node_dict (ensure_node n g)) m =
     (if m = n then (case map_of (node_dict g) n of None \<Rightarrow> Some [] | Some a \<Rightarrow> Some a)
      else map_of (node_dict g) m)"
  by (auto simp: ensure_node_def has_node_def map_add_def split: option.splits)

text \<open>
  Claim C7, amended: \<open>add_edge\<close> always succeeds. Afterwards both endpoints are
  nodes and the edge carries the label; an endpoint that was a node keeps its
  attributes, one that was not is created with none; counter and frontier are
  untouched.
\<close>

theorem add_edge_unknown_endpoints:
  "has_node (graph (add_edge u v l b)) u \<and>
   has_node (graph (add_edge u v l b)) v \<and>
   edge_label (graph (add_edge u v l b)) u v = Some l \<and>
   map_of (node_dict (graph (add_edge u v l b))) u =
     (case map_of (node_dict (graph b)) u of None \<Rightarrow> Some [] | Some a \<Rightarrow> Some a) \<and>
   map_of (node_dict (graph (add_edge u v l b))) v =
     (case map_of (node_dict (graph b)) v of None \<Rightarrow> Some [] | Some a \<Rightarrow> Some a) \<and>
   counter (add_edge u v l b) = counter b \<and> last_nodes (add_edge u v l b) = last_nodes b"
  by (simp add: graph_add_edge has_node_add_edge edge_label_add_edge node_dict_add_edge
      map_of_ensure_node split: option.splits)

section \<open>Claims about \<open>build\<close> and the parse step\<close>

text \<open>
  Claim C8 (as stated: every input that fails to parse gives the failure pair). Source
  text with a null byte fails to parse with \<open>ValueError\<close>, which the \<open>except\<close> clause
  does not name: \<open>build\<close>, which is \<open>build_tree\<close> on the outcome of the parse step,
  returns nothing and the exception escapes.
\<close>

theorem C8_counterexample:
  "build_tree (OtherException ''ValueError'') init = (Escaped ''ValueError'', init) \<and>
   fst (build_tree (OtherException ''ValueError'') init) \<noteq>
     Returned None (Some (''Syntax Error: '' @ ''ValueError''))"
  by (simp add: build_tree_def)

text \<open>
  Claim C8, amended: when the parser raises \<open>SyntaxError\<close>, \<open>build\<close> returns no graph
  together with a non-empty error text, and the builder is left as it was; for the
  fresh builder that means a graph without nodes and edges.
\<close>

theorem build_syntax_error:
  assumes "parse code = SyntaxError e"
  shows "fst (build parse code b) = Returned None (Some (''Syntax Error: '' @ e)) \<and>
         ''Syntax Error: '' @ e \<noteq> [] \<and>
         snd (build parse code b) = b \<and>
         number_of_nodes (graph (snd (build parse code init))) = 0 \<and>
         number_of_edges (graph (snd (build parse code init))) = 0"
  using assms
  by (simp add: build_def build_tree_def init_def empty_graph_def number_of_nodes_def
      number_of_edges_def)

text \<open>An unclosed parenthesis, with a parser that rejects it.\<close>

theorem build_syntax_error_witness:
  "fst (build (\<lambda>s. SyntaxError ''unexpected EOF'') ''x = (1'' init)
     = Returned None (Some ''Syntax Error: unexpected EOF'') \<and>
   snd (build (\<lambda>s. SyntaxError ''unexpected EOF'') ''x = (1'' init) = init"
  using build_syntax_error [of "\<lambda>s. SyntaxError ''unexpected EOF''" "''x = (1''" "''unexpected EOF''" init]
  by simp

text \<open>
  Claim C9: only \<open>SyntaxError\<close> is turned into the failure pair. When the parser
  raises another exception, it escapes from \<open>build\<close>; and \<open>build\<close> returns a pair
  without graph exactly when the parser raised \<open>SyntaxError\<close>.
\<close>

theorem build_other_exception:
  "(parse code = OtherException x \<longrightarrow> build parse code b = (Escaped x, b)) \<and>
   ((\<exists>m. fst (build parse code b) = Returned None m) \<longleftrightarrow> (\<exists>e. parse code = SyntaxError e))"
  by (cases "parse code") (auto simp: build_def build_tree_def Let_def split: prod.splits)

text \<open>A parser that raises \<open>ValueError\<close> on source text with a null byte.\<close>

theorem build_other_exception_witness:
  "build (\<lambda>s. if CHR 0x00 \<in> set s then OtherException ''ValueError'' else Module [])
     [CHR ''x'', CHR 0x00] init = (Escaped ''ValueError'', init)"
  using build_other_exception
    [of "\<lambda>s. if CHR 0x00 \<in> set s then OtherException ''ValueError'' else Module []"
        "[CHR ''x'', CHR 0x00]" "''ValueError''" init]
  by simp

section \<open>Claims about statements without a visit method\<close>

lemma visit_all_append: "visit_all (xs @ ys) b = visit_all ys (visit_all xs b)"
  by (induction xs arbitrary: b) simp_all

text \<open>
  Claim C10: a statement of an unhandled kind gets no node of its own; its child
  nodes are visited in order, so the builder ends in the state it would reach if the
  children stood in the statement's place in the enclosing statement list, and
  \<open>build\<close> returns the same result for both programs.
\<close>

theorem unhandled_inlined:
  "visit (Other txt children) b = visit_all children b \<and>
   visit_all (pre @ Other txt children # post) b = visit_all (pre @ children @ post) b \<and>
   build_tree (Module (pre @ Other txt children # post)) b =
     build_tree (Module (pre @ children @ post)) b"
  by (simp add: visit_all_append build_tree_def)

text \<open>
  Claim C1 (as stated: an unhandled statement becomes one node labelled with its
  text). The program \<open>pass\<close> gives the graph of the empty program: the nodes are
  START and STOP only.
\<close>

theorem C1_counterexample:
  "labels (graph (snd (build_tree (Module [Other ''pass'' []]) init))) = [''START'', ''STOP''] \<and>
   number_of_nodes (graph (snd (build_tree (Module [Other ''pass'' []]) init))) = 2"
proof -
  have "build_tree (Module [Other ''pass'' []]) init = build_tree (Module []) init"
    by (simp add: build_tree_def)
  then show ?thesis
    by (simp add: build_empty labels_def number_of_nodes_def dict_get_def)
qed

lemma unhandled_only_visit:
  "unhandled_only st \<Longrightarrow> visit st b = b"
  "list_all unhandled_only sts \<Longrightarrow> visit_all sts b = b"
  by (induction st b and sts b rule: visit_visit_all.induct) simp_all

text \<open>
  Claim C1, amended: a statement of an unhandled kind none of whose descendants has
  a visit method (\<open>pass\<close>, \<open>break\<close>, \<open>return x\<close>, ...) leaves the builder as it
  was: no node, no edge, the frontier unchanged.
\<close>

theorem unhandled_leaf_no_node:
  "unhandled_only st \<Longrightarrow> visit st b = b"
  by (rule unhandled_only_visit)

theorem unhandled_leaf_no_node_witness:
  "unhandled_only (Other ''return x'' [Other ''x'' [Other '''' []]]) \<and>
   visit (Other ''return x'' [Other ''x'' [Other '''' []]]) init = init"
  using unhandled_leaf_no_node [of "Other ''return x'' [Other ''x'' [Other '''' []]]" init]
  by simp

section \<open>The visit methods in terms of \<open>attach\<close> and \<open>link\<close>\<close>

lemma attach_alt:
  "attach label shape color b =
     (node_name (Suc (counter b)),
      (link (last_nodes b) (node_name (Suc (counter b))) '''' (snd (new_node label shape color b)))
        \<lparr>last_nodes := [node_name (Suc (counter b))]\<rparr>)"
  by (simp add: attach_def Let_def split: prod.splits)
     (metis fst_conv snd_conv fst_new_node last_nodes_new_node)

lemma fst_attach [simp]: "fst (attach l s c b) = node_name (Suc (counter b))"
  by (simp add: attach_alt)

lemma visit_Assign: "visit (Assign l) b = snd (attach l ''rect'' ''#ffffff'' b)"
  and visit_Expr: "visit (Expr l) b = snd (attach l ''rect'' ''#ffffff'' b)"
  by (simp_all add: attach_def link_def Let_def split: prod.splits)

lemma visit_If:
  "visit (If test body orelse) b =
     (let cond = node_name (Suc (counter b));
          b3 = visit_all body (snd (attach (''if '' @ test @ '':'') ''diamond'' ''#AED6F1'' b));
          b4 = b3\<lparr>last_nodes := [cond]\<rparr>
      in if orelse = [] then b4\<lparr>last_nodes := last_nodes b3 @ [cond]\<rparr>
         else (visit_all orelse b4)\<lparr>last_nodes := last_nodes b3 @ last_nodes (visit_all orelse b4)\<rparr>)"
  by (simp add: attach_alt link_def Let_def split: prod.splits)
     (metis fst_conv snd_conv fst_new_node last_nodes_new_node)

lemma visit_While:
  "visit (While test body orelse) b =
     (let cond = node_name (Suc (counter b));
          b3 = visit_all body (snd (attach (''while '' @ test @ '':'') ''diamond'' ''#F9E79F'' b))
      in (link (last_nodes b3) cond ''Loop'' b3)\<lparr>last_nodes := [cond]\<rparr>)"
  by (simp add: attach_alt link_def Let_def split: prod.splits)
     (metis fst_conv snd_conv fst_new_node last_nodes_new_node)

section \<open>The invariant\<close>

lemma wf_iff:
  "wf b \<longleftrightarrow>
     distinct (keys (edge_dict (graph b))) \<and>
     (\<forall>n. has_node (graph b) n \<longrightarrow> (\<exists>j. 0 < j \<and> j \<le> counter b \<and> n = node_name j)) \<and>
     (\<forall>n\<in>set (last_nodes b). has_node (graph b) n) \<and>
     (\<forall>u v. has_edge (graph b) u v \<longrightarrow> has_node (graph b) u \<and> has_node (graph b) v)"
proof -
  have names: "\<And>n c. n \<in> set (map node_name [1..<Suc c]) \<longleftrightarrow>
      (\<exists>j. 0 < j \<and> j \<le> c \<and> n = node_name j)"
    by (force simp: image_iff)
  show ?thesis
    unfolding wf_def list_all_iff has_node_iff has_edge_iff names by auto
qed

lemma wf_fresh: "wf b \<Longrightarrow> counter b < k \<Longrightarrow> \<not> has_node (graph b) (node_name k)"
  by (auto simp: wf_iff)

lemma wf_no_edge_fresh:
  "wf b \<Longrightarrow> counter b < k \<Longrightarrow> edge_label (graph b) u (node_name k) = None"
  "wf b \<Longrightarrow> counter b < k \<Longrightarrow> edge_label (graph b) (node_name k) v = None"
proof -
  assume w: "wf b" and k: "counter b < k"
  then have f: "\<not> has_node (graph b) (node_name k)" by (rule wf_fresh)
  with w have "\<not> has_edge (graph b) u (node_name k)" "\<not> has_edge (graph b) (node_name k) v"
    unfolding wf_iff by blast+
  then show "edge_label (graph b) u (node_name k) = None"
    and "edge_label (graph b) (node_name k) v = None"
    by (simp_all add: has_edge_label)
qed

lemma has_node_same: "node_dict g' = node_dict g \<Longrightarrow> has_node g' = has_node g"
  by (simp add: has_node_def fun_eq_iff)

lemma has_node_append:
  "node_dict g' = node_dict g @ new \<Longrightarrow> has_node g' n \<longleftrightarrow> has_node g n \<or> n \<in> set (keys new)"
  by (auto simp: has_node_iff keys_def)

lemma grows_refl: "grows b b"
  by (simp add: grows_def)

lemma grows_trans: "grows a b \<Longrightarrow> grows b c \<Longrightarrow> grows a c"
  by (fastforce simp: grows_def)

lemma grows_same: "node_dict (graph b') = node_dict (graph b) \<Longrightarrow> grows a b \<Longrightarrow> grows a b'"
  by (simp add: grows_def)

lemma grows_has_node: "grows a b \<Longrightarrow> has_node (graph a) n \<Longrightarrow> has_node (graph b) n"
  by (auto simp: grows_def has_node_append)

lemma ext_refl: "wf b \<Longrightarrow> ext b b"
  by (simp add: ext_def grows_refl)

lemma ext_trans: "ext a b \<Longrightarrow> ext b c \<Longrightarrow> ext a c"
  unfolding ext_def by (auto intro: grows_trans)

lemma ext_wf: "ext a b \<Longrightarrow> wf b"
  and ext_counter: "ext a b \<Longrightarrow> counter a \<le> counter b"
  and ext_grows: "ext a b \<Longrightarrow> grows a b"
  and ext_frame: "ext a b \<Longrightarrow> i \<le> counter a \<Longrightarrow>
        edge_label (graph b) u (node_name i) = edge_label (graph a) u (node_name i)"
  by (simp_all add: ext_def)

lemma ext_has_node: "ext a b \<Longrightarrow> has_node (graph a) n \<Longrightarrow> has_node (graph b) n"
  by (blast intro: grows_has_node ext_grows)

subsection \<open>The frontier is replaced\<close>

lemma wf_frontier:
  "wf b \<Longrightarrow> \<forall>n\<in>set ns. has_node (graph b) n \<Longrightarrow> wf (b\<lparr>last_nodes := ns\<rparr>)"
  by (simp add: wf_iff)

lemma ext_frontier:
  "ext a b \<Longrightarrow> \<forall>n\<in>set ns. has_node (graph b) n \<Longrightarrow> ext a (b\<lparr>last_nodes := ns\<rparr>)"
  by (simp add: ext_def wf_frontier grows_def)

subsection \<open>Edges are added between nodes\<close>

lemma has_edge_link:
  "has_edge (graph (link xs t l b)) u v \<longleftrightarrow> (u \<in> set xs \<and> v = t) \<or> has_edge (graph b) u v"
  by (auto simp: has_edge_label edge_label_link)

lemma wf_link:
  assumes "wf b" and "\<forall>x\<in>set xs. has_node (graph b) x" and "has_node (graph b) t"
  shows "wf (link xs t l b)"
proof -
  have n: "node_dict (graph (link xs t l b)) = node_dict (graph b)"
    using assms(2,3) by (rule node_dict_link)
  show ?thesis
    using assms unfolding wf_iff [of "link xs t l b"] wf_iff [of b]
    by (auto simp: has_node_same [OF n] has_edge_link distinct_edges_link)
qed

lemma ext_link:
  assumes "ext a b" and "\<forall>x\<in>set xs. has_node (graph b) x" and "has_node (graph b) (node_name k)"
    and "counter a < k"
  shows "ext a (link xs (node_name k) l b)"
proof -
  have n: "node_dict (graph (link xs (node_name k) l b)) = node_dict (graph b)"
    using assms(2,3) by (rule node_dict_link)
  have "wf (link xs (node_name k) l b)"
    using assms by (intro wf_link) (simp_all add: ext_wf)
  moreover have "grows a (link xs (node_name k) l b)"
    using n ext_grows [OF assms(1)] by (rule grows_same)
  ultimately show ?thesis
    using assms(1,4) by (auto simp: ext_def edge_label_link)
qed

subsection \<open>A node is attached\<close>

lemma counter_attach [simp]: "counter (snd (attach l s c b)) = Suc (counter b)"
  and last_nodes_attach [simp]: "last_nodes (snd (attach l s c b)) = [node_name (Suc (counter b))]"
  by (simp_all add: attach_alt)

lemma edge_label_attach:
  "edge_label (graph (snd (attach l s c b))) u v =
     (if u \<in> set (last_nodes b) \<and> v = node_name (Suc (counter b)) then Some ''''
      else edge_label (graph b) u v)"
  by (simp add: attach_alt edge_label_link)

lemma wf_new_node:
  assumes "wf b"
  shows "wf (snd (new_node l s c b))"
proof -
  have f: "\<not> has_node (graph b) (node_name (Suc (counter b)))"
    using assms by (simp add: wf_fresh)
  note n = node_dict_new_node [OF f, of l s c]
  have e: "has_edge (graph (snd (new_node l s c b))) = has_edge (graph b)"
    by (simp add: has_edge_def fun_eq_iff)
  have h: "\<And>m. has_node (graph (snd (new_node l s c b))) m \<longleftrightarrow>
      has_node (graph b) m \<or> m = node_name (Suc (counter b))"
    by (simp add: has_node_append [OF n] keys_def)
  show ?thesis
    using assms unfolding wf_iff [of "snd (new_node l s c b)"] wf_iff [of b] e h
    by (auto intro: le_SucI)
qed

lemma attach_parts:
  assumes "wf b"
  shows "node_dict (graph (snd (attach l s c b))) =
     node_dict (graph b) @
       [(node_name (Suc (counter b)),
         [(''label'', l), (''shape'', s), (''fillcolor'', c), (''style'', ''filled'')])]"
    and "wf (snd (attach l s c b))"
proof -
  let ?name = "node_name (Suc (counter b))"
  let ?b1 = "snd (new_node l s c b)"
  have f: "\<not> has_node (graph b) ?name"
    using assms by (simp add: wf_fresh)
  note n = node_dict_new_node [OF f, of l s c]
  have w: "wf ?b1" using assms by (rule wf_new_node)
  have src: "\<forall>x\<in>set (last_nodes ?b1). has_node (graph ?b1) x"
    using assms by (simp add: has_node_append [OF n] wf_iff)
  have tgt: "has_node (graph ?b1) ?name"
    by (simp add: has_node_append [OF n] keys_def)
  have src': "\<forall>x\<in>set (last_nodes b). has_node (graph ?b1) x"
    using src by simp
  note nl = node_dict_link [OF src' tgt, of "''''"]
  from nl n show "node_dict (graph (snd (attach l s c b))) =
     node_dict (graph b) @
       [(?name, [(''label'', l), (''shape'', s), (''fillcolor'', c), (''style'', ''filled'')])]"
    by (simp add: attach_alt)
  have "wf (link (last_nodes b) ?name '''' ?b1)"
    using w src' tgt by (rule wf_link)
  moreover have "has_node (graph (link (last_nodes b) ?name '''' ?b1)) ?name"
    using tgt by (simp add: has_node_same [OF nl])
  ultimately have "wf ((link (last_nodes b) ?name '''' ?b1)\<lparr>last_nodes := [?name]\<rparr>)"
    by (intro wf_frontier) simp_all
  then show "wf (snd (attach l s c b))" by (simp add: attach_alt)
qed

lemmas node_dict_attach = attach_parts(1)
lemmas wf_attach = attach_parts(2)

lemma ext_attach:
  assumes "wf b" and "s \<noteq> ''ellipse''"
  shows "ext b (snd (attach l s c b))"
proof -
  have "grows b (snd (attach l s c b))"
    using assms(2) by (simp add: grows_def node_dict_attach [OF assms(1)] dict_get_def)
  moreover have "\<forall>u i. i \<le> counter b \<longrightarrow>
      edge_label (graph (snd (attach l s c b))) u (node_name i) =
      edge_label (graph b) u (node_name i)"
    by (auto simp: edge_label_attach)
  ultimately show ?thesis
    using assms(1) by (simp add: ext_def wf_attach)
qed

lemma has_node_attach:
  "wf b \<Longrightarrow> has_node (graph (snd (attach l s c b))) (node_name (Suc (counter b)))"
  by (simp add: has_node_append [OF node_dict_attach] keys_def)

subsection \<open>Every visit keeps the invariant\<close>

lemma ext_visit_all:
  assumes step: "\<And>x b. x \<in> set sts \<Longrightarrow> wf b \<Longrightarrow> ext b (visit x b)"
  shows "wf b \<Longrightarrow> ext b (visit_all sts b)"
  using step
proof (induction sts arbitrary: b)
  case Nil
  then show ?case by (simp add: ext_refl)
next
  case (Cons x xs)
  have 1: "ext b (visit x b)" using Cons.prems by simp
  have "ext (visit x b) (visit_all xs (visit x b))"
    using Cons.prems by (intro Cons.IH) (simp_all add: ext_wf [OF 1])
  with 1 show ?case by (simp add: ext_trans)
qed

lemma ext_If:
  assumes w: "wf b"
    and body: "\<And>b. wf b \<Longrightarrow> ext b (visit_all body b)"
    and orelse: "\<And>b. wf b \<Longrightarrow> ext b (visit_all orelse b)"
  shows "ext b (visit (If test body orelse) b)"
proof -
  let ?cond = "node_name (Suc (counter b))"
  let ?b2 = "snd (attach (''if '' @ test @ '':'') ''diamond'' ''#AED6F1'' b)"
  let ?b3 = "visit_all body ?b2"
  let ?b4 = "?b3\<lparr>last_nodes := [?cond]\<rparr>"
  have e2: "ext b ?b2" using w by (intro ext_attach) simp_all
  have e23: "ext ?b2 ?b3" using w by (intro body wf_attach)
  have e3: "ext b ?b3" using e2 e23 by (rule ext_trans)
  have c3: "has_node (graph ?b3) ?cond"
    using e23 has_node_attach [OF w] by (rule ext_has_node)
  have t3: "\<forall>n\<in>set (last_nodes ?b3). has_node (graph ?b3) n"
    using ext_wf [OF e3] by (simp add: wf_iff)
  have e4: "ext b ?b4" using c3 by (intro ext_frontier [OF e3]) simp
  show ?thesis
  proof (cases "orelse = []")
    case True
    have "ext b (?b4\<lparr>last_nodes := last_nodes ?b3 @ [?cond]\<rparr>)"
      using t3 c3 by (intro ext_frontier [OF e4]) auto
    with True show ?thesis unfolding visit_If Let_def by simp
  next
    case False
    let ?b5 = "visit_all orelse ?b4"
    have e45: "ext ?b4 ?b5" using e4 by (intro orelse ext_wf)
    have e5: "ext b ?b5" using e4 e45 by (rule ext_trans)
    have "\<forall>n\<in>set (last_nodes ?b3). has_node (graph ?b5) n"
      using t3 ext_has_node [OF e45] by simp
    moreover have "\<forall>n\<in>set (last_nodes ?b5). has_node (graph ?b5) n"
      using ext_wf [OF e5] by (simp add: wf_iff)
    ultimately have "ext b (?b5\<lparr>last_nodes := last_nodes ?b3 @ last_nodes ?b5\<rparr>)"
      by (intro ext_frontier [OF e5]) auto
    with False show ?thesis unfolding visit_If Let_def by simp
  qed
qed

lemma ext_While:
  assumes w: "wf b"
    and body: "\<And>b. wf b \<Longrightarrow> ext b (visit_all body b)"
  shows "ext b (visit (While test body orelse) b)"
proof -
  let ?cond = "node_name (Suc (counter b))"
  let ?b2 = "snd (attach (''while '' @ test @ '':'') ''diamond'' ''#F9E79F'' b)"
  let ?b3 = "visit_all body ?b2"
  have e2: "ext b ?b2" using w by (intro ext_attach) simp_all
  have e23: "ext ?b2 ?b3" using w by (intro body wf_attach)
  have e3: "ext b ?b3" using e2 e23 by (rule ext_trans)
  have c3: "has_node (graph ?b3) ?cond"
    using e23 has_node_attach [OF w] by (rule ext_has_node)
  have t3: "\<forall>n\<in>set (last_nodes ?b3). has_node (graph ?b3) n"
    using ext_wf [OF e3] by (simp add: wf_iff)
  have e4: "ext b (link (last_nodes ?b3) ?cond ''Loop'' ?b3)"
    using e3 t3 c3 by (rule ext_link) simp
  have hl: "has_node (graph (link (last_nodes ?b3) ?cond ''Loop'' ?b3)) = has_node (graph ?b3)"
    by (rule has_node_same [OF node_dict_link [OF t3 c3]])
  have "\<forall>n\<in>set [?cond]. has_node (graph (link (last_nodes ?b3) ?cond ''Loop'' ?b3)) n"
    unfolding hl using c3 by simp
  then have "ext b ((link (last_nodes ?b3) ?cond ''Loop'' ?b3)\<lparr>last_nodes := [?cond]\<rparr>)"
    by (rule ext_frontier [OF e4])
  then show ?thesis unfolding visit_While Let_def .
qed

lemma ext_visit: "wf b \<Longrightarrow> ext b (visit st b)"
proof (induction st arbitrary: b)
  case (Assign l)
  then show ?case by (simp only: visit_Assign) (rule ext_attach, simp_all)
next
  case (Expr l)
  then show ?case by (simp only: visit_Expr) (rule ext_attach, simp_all)
next
  case (If test body orelse)
  show ?case
    using If.prems by (intro ext_If ext_visit_all If.IH) simp_all
next
  case (While test body orelse)
  show ?case
    using While.prems by (intro ext_While ext_visit_all While.IH(1)) simp_all
next
  case (Other t children)
  show ?case
    using Other.prems by (simp only: visit.simps) (intro ext_visit_all Other.IH, simp_all)
qed

lemma ext_visit_all_wf: "wf b \<Longrightarrow> ext b (visit_all sts b)"
  by (rule ext_visit_all) (rule ext_visit)

section \<open>Claims about \<open>visit_If\<close> and \<open>visit_While\<close>\<close>

lemma started_eval:
  "started =
     \<lparr>graph = \<lparr>node_dict =
         [(''node_1'', [(''label'', ''START''), (''shape'', ''ellipse''),
                        (''fillcolor'', ''#DAF7A6''), (''style'', ''filled'')])],
        edge_dict = []\<rparr>,
      counter = Suc 0, last_nodes = [''node_1'']\<rparr>"
  by (simp add: started_def eval_defs)

lemma wf_started: "wf started"
  by (simp add: started_eval wf_def keys_def has_node_def node_name_evals)

lemma build_tree_Module:
  "build_tree (Module body) init =
     (let b3 = visit_all body started;
          b5 = link (last_nodes b3) (node_name (Suc (counter b3))) ''''
                 (snd (new_node ''STOP'' ''ellipse'' ''#FFC300'' b3))
      in (Returned (Some (graph b5)) None, b5))"
  by (simp add: build_tree_def started_def link_def Let_def split: prod.splits)
     (metis fst_conv snd_conv fst_new_node last_nodes_new_node)

text \<open>
  Claim C6: a conditional creates its predicate node \<open>cond\<close> and visits the true
  branch from the frontier \<open>[cond]\<close>. Without an else branch the frontier afterwards
  is the true-branch exits followed by \<open>cond\<close> alone; with an else branch it is the
  true-branch exits followed by the exits of the else branch, which is visited from
  the frontier \<open>[cond]\<close> again.
\<close>

theorem if_frontier:
  "let (cond, b2) = attach (''if '' @ test @ '':'') ''diamond'' ''#AED6F1'' b;
       b3 = visit_all body b2
   in last_nodes b2 = [cond] \<and>
      last_nodes (visit (If test body []) b) = last_nodes b3 @ [cond] \<and>
      last_nodes (visit (If test body (s # rest)) b) =
        last_nodes b3 @ last_nodes (visit_all (s # rest) (b3\<lparr>last_nodes := [cond]\<rparr>))"
  unfolding visit_If by (simp add: Let_def attach_alt)

lemma while_back_edges_general:
  "let (cond, b2) = attach (''while '' @ test @ '':'') ''diamond'' ''#F9E79F'' b;
       b3 = visit_all body b2;
       b' = visit (While test body orelse) b
   in last_nodes b2 = [cond] \<and>
      last_nodes b' = [cond] \<and>
      (\<forall>u v. edge_label (graph b') u v =
         (if u \<in> set (last_nodes b3) \<and> v = cond then Some ''Loop''
          else edge_label (graph b3) u v))"
  unfolding visit_While by (simp add: Let_def attach_alt edge_label_link)

lemmas unfold_visit = build_tree_Module visit_If visit_While visit_Assign visit_Expr
  visit.simps(5) visit_all.simps attach_alt Let_def snd_conv fst_conv

lemmas eval_steps = started_eval new_node_def add_edge_def nx_add_node_def nx_add_edge_def
  ensure_node_def has_node_def dict_get_def dict_update_def Let_def link_def node_name_evals

lemma build_while_example:
  "snd (build_tree (Module [While ''x > 0'' [Assign ''x = x - 1''] []]) init) =
   \<lparr>graph =
     \<lparr>node_dict =
        [(''node_1'', [(''label'', ''START''), (''shape'', ''ellipse''),
                       (''fillcolor'', ''#DAF7A6''), (''style'', ''filled'')]),
         (''node_2'', [(''label'', ''while x > 0:''), (''shape'', ''diamond''),
                       (''fillcolor'', ''#F9E79F''), (''style'', ''filled'')]),
         (''node_3'', [(''label'', ''x = x - 1''), (''shape'', ''rect''),
                       (''fillcolor'', ''#ffffff''), (''style'', ''filled'')]),
         (''node_4'', [(''label'', ''STOP''), (''shape'', ''ellipse''),
                       (''fillcolor'', ''#FFC300''), (''style'', ''filled'')])],
      edge_dict =
        [((''node_1'', ''node_2''), [(''label'', [])]),
         ((''node_2'', ''node_3''), [(''label'', [])]),
         ((''node_3'', ''node_2''), [(''label'', ''Loop'')]),
         ((''node_2'', ''node_4''), [(''label'', [])])]\<rparr>,
     counter = 4, last_nodes = [''node_2'']\<rparr>"
  apply (simp only: unfold_visit)
  apply (simp add: eval_steps)
  done

subsection \<open>Degrees and loop edges\<close>

lemma in_degree_zero: "in_degree g n = 0 \<longleftrightarrow> (\<forall>u. \<not> has_edge g u n)"
  by (auto simp: in_degree_def has_edge_iff filter_empty_conv)

lemma out_degree_zero: "out_degree g n = 0 \<longleftrightarrow> (\<forall>v. \<not> has_edge g n v)"
  by (auto simp: out_degree_def has_edge_iff filter_empty_conv)

lemma map_of_distinct_keys:
  "distinct (keys d) \<Longrightarrow> map_of d k = Some a \<longleftrightarrow> (k, a) \<in> set d"
  by (simp add: keys_def)

lemma loop_sources_iff:
  assumes "distinct (keys (edge_dict g))"
  shows "u \<in> set (loop_sources g t) \<longleftrightarrow> edge_label g u t = Some ''Loop''"
proof -
  have "u \<in> set (loop_sources g t) \<longleftrightarrow>
      (\<exists>a. ((u, t), a) \<in> set (edge_dict g) \<and> dict_get a ''label'' '''' = ''Loop'')"
    by (force simp: loop_sources_def image_iff)
  also have "\<dots> \<longleftrightarrow> (\<exists>a. map_of (edge_dict g) (u, t) = Some a \<and> dict_get a ''label'' '''' = ''Loop'')"
    using assms by (simp add: map_of_distinct_keys)
  also have "\<dots> \<longleftrightarrow> edge_label g u t = Some ''Loop''"
    by (auto simp: edge_label_def split: option.splits)
  finally show ?thesis .
qed

lemma distinct_loop_sources:
  assumes "distinct (keys (edge_dict g))"
  shows "distinct (loop_sources g t)"
proof -
  let ?P = "\<lambda>(e, a). snd e = t \<and> dict_get a ''label'' '''' = ''Loop''"
  have inj: "inj_on fst (set (edge_dict g))" and d: "distinct (edge_dict g)"
    using assms by (simp_all add: keys_def distinct_map)
  have "inj_on (\<lambda>(e, a). fst e) (set (filter ?P (edge_dict g)))"
  proof (rule inj_onI)
    fix x y
    assume x: "x \<in> set (filter ?P (edge_dict g))" and y: "y \<in> set (filter ?P (edge_dict g))"
      and e: "(case x of (e, a) \<Rightarrow> fst e) = (case y of (e, a) \<Rightarrow> fst e)"
    then have "fst x = fst y" by (auto simp: prod_eq_iff)
    with inj x y show "x = y" by (auto dest: inj_onD)
  qed
  with d show ?thesis by (simp add: loop_sources_def distinct_map)
qed

text \<open>
  Claim C3: a loop whose body ends with a conditional, visited in a well-formed
  state. The edges labelled \<open>Loop\<close> that enter the loop predicate come from exactly
  the nodes that are true-branch exits or false-branch exits of that conditional, one
  edge for each such node.
\<close>

theorem loop_back_edges_from_both_arms:
  assumes "wf b"
  shows
  "let (cond, b2) = attach (''while '' @ test @ '':'') ''diamond'' ''#F9E79F'' b;
       bi = visit_all pre b2;
       (icond, bi2) = attach (''if '' @ c @ '':'') ''diamond'' ''#AED6F1'' bi;
       bt = visit_all tb bi2;
       true_exits = last_nodes bt;
       false_exits =
         (if fb = [] then [icond] else last_nodes (visit_all fb (bt\<lparr>last_nodes := [icond]\<rparr>)));
       g' = graph (visit (While test (pre @ [If c tb fb]) orelse) b)
   in set (loop_sources g' cond) = set true_exits \<union> set false_exits \<and>
      distinct (loop_sources g' cond)"
proof -
  define wl where "wl = ''while '' @ test @ '':''"
  define il where "il = ''if '' @ c @ '':''"
  let ?cond = "node_name (Suc (counter b))"
  let ?b2 = "snd (attach wl ''diamond'' ''#F9E79F'' b)"
  let ?bi = "visit_all pre ?b2"
  let ?icond = "node_name (Suc (counter ?bi))"
  let ?bt = "visit_all tb (snd (attach il ''diamond'' ''#AED6F1'' ?bi))"
  let ?F = "if fb = [] then [?icond] else last_nodes (visit_all fb (?bt\<lparr>last_nodes := [?icond]\<rparr>))"
  let ?b3 = "visit_all (pre @ [If c tb fb]) ?b2"
  let ?b' = "visit (While test (pre @ [If c tb fb]) orelse) b"
  have b3: "?b3 = visit (If c tb fb) ?bi"
    by (simp add: visit_all_append del: visit.simps)
  have front: "last_nodes ?b3 = last_nodes ?bt @ ?F"
    unfolding b3 visit_If il_def by (simp add: Let_def)
  have b': "?b' = (link (last_nodes ?b3) ?cond ''Loop'' ?b3)\<lparr>last_nodes := [?cond]\<rparr>"
    unfolding visit_While wl_def by (simp add: Let_def)
  have w2: "wf ?b2" using assms by (rule wf_attach)
  have e23: "ext ?b2 ?b3" using w2 by (rule ext_visit_all_wf)
  have "wf ?b'" using assms by (rule ext_wf [OF ext_visit])
  then have dist: "distinct (keys (edge_dict (graph ?b')))" by (simp add: wf_iff)
  have old: "edge_label (graph ?b3) u ?cond \<noteq> Some ''Loop''" for u
  proof -
    have "edge_label (graph ?b3) u ?cond = edge_label (graph ?b2) u ?cond"
      using e23 by (rule ext_frame) simp
    also have "\<dots> = (if u \<in> set (last_nodes b) then Some '''' else None)"
      using assms by (simp add: edge_label_attach wf_no_edge_fresh)
    finally show ?thesis by simp
  qed
  have "u \<in> set (loop_sources (graph ?b') ?cond) \<longleftrightarrow> u \<in> set (last_nodes ?bt) \<union> set ?F" for u
    unfolding loop_sources_iff [OF dist] unfolding b' using old [of u]
    by (simp add: edge_label_link front)
  then have "set (loop_sources (graph ?b') ?cond) = set (last_nodes ?bt) \<union> set ?F"
    by blast
  moreover have "distinct (loop_sources (graph ?b') ?cond)"
    using dist by (rule distinct_loop_sources)
  ultimately show ?thesis
    unfolding wl_def il_def by (simp add: Let_def attach_alt split: prod.splits)
qed

text \<open>
  Claim C5: after the body of a loop has been visited, every node of the frontier has
  an edge labelled \<open>Loop\<close> to the loop predicate, all other edges are as they were,
  and the frontier after the loop is the predicate alone. For
  \<open>while x > 0: x = x - 1\<close> the only edge labelled \<open>Loop\<close> goes from the node of the
  body (\<open>node_3\<close>) to the predicate (\<open>node_2\<close>), there is one predicate, and the
  cyclomatic complexity is 2.
\<close>

theorem while_back_edges:
  "(let (cond, b2) = attach (''while '' @ test @ '':'') ''diamond'' ''#F9E79F'' b;
        b3 = visit_all body b2;
        b' = visit (While test body orelse) b
    in last_nodes b2 = [cond] \<and>
       last_nodes b' = [cond] \<and>
       (\<forall>u v. edge_label (graph b') u v =
          (if u \<in> set (last_nodes b3) \<and> v = cond then Some ''Loop''
           else edge_label (graph b3) u v))) \<and>
   labels (graph (snd (build_tree (Module [While ''x > 0'' [Assign ''x = x - 1''] []]) init)))
     = [''START'', ''while x > 0:'', ''x = x - 1'', ''STOP''] \<and>
   loop_edges (graph (snd (build_tree (Module [While ''x > 0'' [Assign ''x = x - 1''] []]) init)))
     = [(''node_3'', ''node_2'')] \<and>
   predicates
     (graph (snd (build_tree (Module [While ''x > 0'' [Assign ''x = x - 1''] []]) init))) = 1 \<and>
   cyclomatic_complexity
     (graph (snd (build_tree (Module [While ''x > 0'' [Assign ''x = x - 1''] []]) init))) = 2"
proof -
  have "labels (graph (snd (build_tree (Module [While ''x > 0'' [Assign ''x = x - 1''] []]) init)))
     = [''START'', ''while x > 0:'', ''x = x - 1'', ''STOP'']"
   and "loop_edges (graph (snd (build_tree (Module [While ''x > 0'' [Assign ''x = x - 1''] []]) init)))
     = [(''node_3'', ''node_2'')]"
   and "predicates
     (graph (snd (build_tree (Module [While ''x > 0'' [Assign ''x = x - 1''] []]) init))) = 1"
   and "cyclomatic_complexity
     (graph (snd (build_tree (Module [While ''x > 0'' [Assign ''x = x - 1''] []]) init))) = 2"
    unfolding build_while_example
    by (simp_all add: labels_def loop_edges_def cyclomatic_complexity_def number_of_edges_def
        number_of_nodes_def predicates_def out_degree_def dict_get_def keys_def)
  with while_back_edges_general [of test b body orelse] show ?thesis
    by (simp only: simp_thms)
qed

lemma no_sentinel_plain:
  "list_all (\<lambda>(n, a). dict_get a ''shape'' '''' \<noteq> ''ellipse'') new \<Longrightarrow>
   filter (\<lambda>(n, a). is_sentinel r a) new = []"
  by (auto simp: filter_empty_conv list_all_iff is_sentinel_def)

text \<open>
  Claim C4: for every statement list, \<open>build\<close> on a fresh builder returns a graph
  with exactly one START sentinel, \<open>node_1\<close>, and exactly one STOP sentinel, the node
  created last; no edge enters START and no edge leaves STOP.
\<close>

theorem build_sentinels:
  "let (r, b') = build_tree (Module body) init;
       g = graph b'
   in r = Returned (Some g) None \<and>
      sentinels ''START'' g = [''node_1''] \<and>
      sentinels ''STOP'' g = [node_name (counter b')] \<and>
      in_degree g ''node_1'' = 0 \<and>
      out_degree g (node_name (counter b')) = 0"
proof -
  let ?b3 = "visit_all body started"
  let ?end = "node_name (Suc (counter ?b3))"
  let ?b4 = "snd (new_node ''STOP'' ''ellipse'' ''#FFC300'' ?b3)"
  let ?b5 = "link (last_nodes ?b3) ?end '''' ?b4"
  have e: "ext started ?b3" using wf_started by (rule ext_visit_all_wf)
  then have w3: "wf ?b3" by (rule ext_wf)
  have c3: "Suc 0 \<le> counter ?b3" using ext_counter [OF e] by (simp add: started_eval)
  obtain new where new: "node_dict (graph ?b3) = node_dict (graph started) @ new"
    and plain: "list_all (\<lambda>(n, a). dict_get a ''shape'' '''' \<noteq> ''ellipse'') new"
    using ext_grows [OF e] unfolding grows_def by blast
  have fresh: "\<not> has_node (graph ?b3) ?end" using w3 by (simp add: wf_fresh)
  note n4 = node_dict_new_node [OF fresh, of "''STOP''" "''ellipse''" "''#FFC300''"]
  have src: "\<forall>x\<in>set (last_nodes ?b3). has_node (graph ?b4) x"
    using w3 by (simp add: has_node_append [OF n4] wf_iff)
  have tgt: "has_node (graph ?b4) ?end"
    by (simp add: has_node_append [OF n4] keys_def)
  have n5: "node_dict (graph ?b5) =
      node_dict (graph started) @ new @
        [(?end, [(''label'', ''STOP''), (''shape'', ''ellipse''),
                 (''fillcolor'', ''#FFC300''), (''style'', ''filled'')])]"
    using node_dict_link [OF src tgt, of "''''"] n4 new by simp
  have lab: "edge_label (graph ?b5) u v =
      (if u \<in> set (last_nodes ?b3) \<and> v = ?end then Some '''' else edge_label (graph ?b3) u v)"
    for u v
    by (simp add: edge_label_link)
  have start: "sentinels ''START'' (graph ?b5) = [''node_1'']"
    unfolding sentinels_def n5
    by (simp add: no_sentinel_plain [OF plain] started_eval is_sentinel_def dict_get_def)
  have stop: "sentinels ''STOP'' (graph ?b5) = [?end]"
    unfolding sentinels_def n5
    by (simp add: no_sentinel_plain [OF plain] started_eval is_sentinel_def dict_get_def)
  have "edge_label (graph ?b5) u (node_name (Suc 0)) = None" for u
  proof -
    have "edge_label (graph ?b3) u (node_name (Suc 0)) = edge_label (graph started) u (node_name (Suc 0))"
      using e by (rule ext_frame) (simp add: started_eval)
    also have "\<dots> = None" by (simp add: started_eval edge_label_def)
    finally show ?thesis using c3 by (simp add: lab)
  qed
  then have indeg: "in_degree (graph ?b5) ''node_1'' = 0"
    by (simp add: in_degree_zero has_edge_label node_name_evals)
  have "edge_label (graph ?b5) ?end v = None" for v
  proof -
    have "?end \<notin> set (last_nodes ?b3)" using w3 fresh by (auto simp: wf_iff)
    moreover have "edge_label (graph ?b3) ?end v = None"
      using w3 by (rule wf_no_edge_fresh) simp
    ultimately show ?thesis by (simp add: lab)
  qed
  then have outdeg: "out_degree (graph ?b5) ?end = 0"
    by (simp add: out_degree_zero has_edge_label)
  have "counter ?b5 = Suc (counter ?b3)" by simp
  with start stop indeg outdeg show ?thesis
    unfolding build_tree_Module by (simp add: Let_def)
qed

text \<open>
  A sentinel is recognised by label and shape together: the expression statement
  \<open>START\<close> gives a second node with that label, drawn as a rectangle.
\<close>

lemma label_alone_is_no_sentinel:
  "labels (graph (snd (build_tree (Module [Expr ''START'']) init))) =
     [''START'', ''START'', ''STOP''] \<and>
   sentinels ''START'' (graph (snd (build_tree (Module [Expr ''START'']) init))) = [''node_1'']"
  apply (simp only: unfold_visit)
  apply (simp add: eval_steps labels_def sentinels_def is_sentinel_def)
  done

subsection \<open>A loop around a conditional with two arms, step by step\<close>

lemma str_nat_numeral:
  "str_nat (numeral k) =
     (if numeral k < (10::nat) then [digit (numeral k)]
      else str_nat (numeral k div 10) @ [digit (numeral k mod 10)])"
  by (rule str_nat.simps)

lemma node_name_numeral: "node_name (numeral k) = ''node_'' @ str_nat (numeral k)"
  by (rule node_name_def)

lemma str_nat_small: "str_nat 0 = ''0''" "str_nat (Suc 0) = ''1''"
  by (simp_all add: str_nat.simps digit_def)

lemmas eval_names = node_name_numeral str_nat_numeral str_nat_small digit_def

lemma ex_step1:
  "attach ''while a:'' ''diamond'' ''#F9E79F'' started =
    (''node_2'',
     \<lparr>graph = \<lparr>node_dict =
        [(''node_1'', [(''label'', ''START''), (''shape'', ''ellipse''),
                       (''fillcolor'', ''#DAF7A6''), (''style'', ''filled'')]),
         (''node_2'', [(''label'', ''while a:''), (''shape'', ''diamond''),
                       (''fillcolor'', ''#F9E79F''), (''style'', ''filled'')])],
        edge_dict = [((''node_1'', ''node_2''), [(''label'', '''')])]\<rparr>,
      counter = 2, last_nodes = [''node_2'']\<rparr>)"
  by (simp add: attach_alt eval_steps eval_names)

lemma ex_step2:
  "attach ''if c:'' ''diamond'' ''#AED6F1''
     \<lparr>graph = \<lparr>node_dict =
        [(''node_1'', [(''label'', ''START''), (''shape'', ''ellipse''),
                       (''fillcolor'', ''#DAF7A6''), (''style'', ''filled'')]),
         (''node_2'', [(''label'', ''while a:''), (''shape'', ''diamond''),
                       (''fillcolor'', ''#F9E79F''), (''style'', ''filled'')])],
        edge_dict = [((''node_1'', ''node_2''), [(''label'', '''')])]\<rparr>,
      counter = 2, last_nodes = [''node_2'']\<rparr> =
    (''node_3'',
     \<lparr>graph = \<lparr>node_dict =
        [(''node_1'', [(''label'', ''START''), (''shape'', ''ellipse''),
                       (''fillcolor'', ''#DAF7A6''), (''style'', ''filled'')]),
         (''node_2'', [(''label'', ''while a:''), (''shape'', ''diamond''),
                       (''fillcolor'', ''#F9E79F''), (''style'', ''filled'')]),
         (''node_3'', [(''label'', ''if c:''), (''shape'', ''diamond''),
                       (''fillcolor'', ''#AED6F1''), (''style'', ''filled'')])],
        edge_dict = [((''node_1'', ''node_2''), [(''label'', '''')]),
                     ((''node_2'', ''node_3''), [(''label'', '''')])]\<rparr>,
      counter = 3, last_nodes = [''node_3'']\<rparr>)"
  by (simp add: attach_alt eval_steps eval_names)

lemma ex_step3:
  "visit (Assign ''x = 1'')
     \<lparr>graph = \<lparr>node_dict =
        [(''node_1'', [(''label'', ''START''), (''shape'', ''ellipse''),
                       (''fillcolor'', ''#DAF7A6''), (''style'', ''filled'')]),
         (''node_2'', [(''label'', ''while a:''), (''shape'', ''diamond''),
                       (''fillcolor'', ''#F9E79F''), (''style'', ''filled'')]),
         (''node_3'', [(''label'', ''if c:''), (''shape'', ''diamond''),
                       (''fillcolor'', ''#AED6F1''), (''style'', ''filled'')])],
        edge_dict = [((''node_1'', ''node_2''), [(''label'', '''')]),
                     ((''node_2'', ''node_3''), [(''label'', '''')])]\<rparr>,
      counter = 3, last_nodes = [''node_3'']\<rparr> =
     \<lparr>graph = \<lparr>node_dict =
        [(''node_1'', [(''label'', ''START''), (''shape'', ''ellipse''),
                       (''fillcolor'', ''#DAF7A6''), (''style'', ''filled'')]),
         (''node_2'', [(''label'', ''while a:''), (''shape'', ''diamond''),
                       (''fillcolor'', ''#F9E79F''), (''style'', ''filled'')]),
         (''node_3'', [(''label'', ''if c:''), (''shape'', ''diamond''),
                       (''fillcolor'', ''#AED6F1''), (''style'', ''filled'')]),
         (''node_4'', [(''label'', ''x = 1''), (''shape'', ''rect''),
                       (''fillcolor'', ''#ffffff''), (''style'', ''filled'')])],
        edge_dict = [((''node_1'', ''node_2''), [(''label'', '''')]),
                     ((''node_2'', ''node_3''), [(''label'', '''')]),
                     ((''node_3'', ''node_4''), [(''label'', '''')])]\<rparr>,
      counter = 4, last_nodes = [''node_4'']\<rparr>"
  unfolding visit_Assign by (simp add: attach_alt eval_steps eval_names)

lemma ex_step4:
  "last_nodes (visit (Assign ''y = 2'')
     \<lparr>graph = \<lparr>node_dict =
        [(''node_1'', [(''label'', ''START''), (''shape'', ''ellipse''),
                       (''fillcolor'', ''#DAF7A6''), (''style'', ''filled'')]),
         (''node_2'', [(''label'', ''while a:''), (''shape'', ''diamond''),
                       (''fillcolor'', ''#F9E79F''), (''style'', ''filled'')]),
         (''node_3'', [(''label'', ''if c:''), (''shape'', ''diamond''),
                       (''fillcolor'', ''#AED6F1''), (''style'', ''filled'')]),
         (''node_4'', [(''label'', ''x = 1''), (''shape'', ''rect''),
                       (''fillcolor'', ''#ffffff''), (''style'', ''filled'')])],
        edge_dict = [((''node_1'', ''node_2''), [(''label'', '''')]),
                     ((''node_2'', ''node_3''), [(''label'', '''')]),
                     ((''node_3'', ''node_4''), [(''label'', '''')])]\<rparr>,
      counter = 4, last_nodes = [''node_3'']\<rparr>) = [''node_5'']"
  unfolding visit_Assign by (simp add: attach_alt eval_names)

text \<open>
  The loop \<open>while a:\<close> with body \<open>if c: x = 1 else: y = 2\<close>, visited right after
  START: the edges labelled \<open>Loop\<close> into the loop predicate \<open>node_2\<close> come from
  \<open>node_4\<close> (\<open>x = 1\<close>) and \<open>node_5\<close> (\<open>y = 2\<close>).
\<close>

theorem loop_back_edges_from_both_arms_witness:
  "wf started \<and>
   set (loop_sources
         (graph (visit (While ''a'' [If ''c'' [Assign ''x = 1''] [Assign ''y = 2'']] []) started))
         ''node_2'') = {''node_4'', ''node_5''}"
  using wf_started loop_back_edges_from_both_arms
      [OF wf_started, of "''a''" "[]" "''c''" "[Assign ''x = 1'']" "[Assign ''y = 2'']" "[]"]
  by (simp add: Let_def ex_step1 ex_step2 ex_step3 ex_step4 insert_commute del: visit.simps)

end
